theory Spec2Isabelle
  imports Main "HOL-Library.Option_ord" "HOL-Library.Product_Lexorder"
begin

section \<open>The chunk store: tables and rows\<close>

text \<open>
  The program keeps its whole state in one SQLite database with two tables
  (\<^verbatim>\<open>database.py\<close>, \<^verbatim>\<open>init_database\<close>):
  \<^verbatim>\<open>
  CREATE TABLE IF NOT EXISTS chunks (
      id INTEGER PRIMARY KEY AUTOINCREMENT,
      name TEXT NOT NULL,
      description TEXT,
      difficulty INTEGER NOT NULL CHECK(difficulty BETWEEN 1 AND 5),
      completed BOOLEAN NOT NULL DEFAULT 0,
      created_at TIMESTAMP DEFAULT CURRENT_TIMESTAMP,
      completed_at TIMESTAMP)
  CREATE TABLE IF NOT EXISTS dependencies (
      id INTEGER PRIMARY KEY AUTOINCREMENT,
      chunk_id INTEGER NOT NULL,
      depends_on_chunk_id INTEGER NOT NULL,
      FOREIGN KEY (chunk_id) REFERENCES chunks(id) ON DELETE CASCADE,
      FOREIGN KEY (depends_on_chunk_id) REFERENCES chunks(id) ON DELETE CASCADE,
      UNIQUE(chunk_id, depends_on_chunk_id))
  \<close>
  Every function of \<^verbatim>\<open>operations.py\<close> opens a connection, runs one statement, commits
  and closes. The model passes the database explicitly: an operation takes the store and
  returns its result together with the store it leaves behind; a query takes the store and
  returns its result.

  A row of \<^verbatim>\<open>chunks\<close> and the \<^verbatim>\<open>Chunk\<close> dataclass built from it (\<^verbatim>\<open>models.py\<close>) have the same
  fields, copied one by one, so one record stands for both. The two timestamp columns are
  nullable; NULL is \<open>None\<close>. A timestamp is a point on the clock, a natural number: the
  column \<^verbatim>\<open>created_at\<close> holds text of the fixed form \<^verbatim>\<open>YYYY-MM-DD HH:MM:SS\<close>, whose
  text order is the order of the instants.
  The field \<^verbatim>\<open>id\<close> is written \<open>id_chunk\<close> and \<open>id_dependency\<close>, since \<open>id\<close> is
  the identity function of HOL.
\<close>

type_synonym timestamp = nat

record chunk =
  id_chunk :: int
  name :: string
  description :: string
  difficulty :: int
  completed :: bool
  created_at :: "timestamp option"
  completed_at :: "timestamp option"

record dependency =
  id_dependency :: int
  chunk_id :: int
  depends_on_chunk_id :: int

text \<open>
  The tables are lists of rows in the order of insertion. \<^verbatim>\<open>AUTOINCREMENT\<close> keeps, for each
  table, the largest row id ever handed out (the table \<^verbatim>\<open>sqlite_sequence\<close>); these
  are \<open>chunks_seq\<close> and \<open>dependencies_seq\<close>.
\<close>

record store =
  chunks :: "chunk list"
  chunks_seq :: int
  dependencies :: "dependency list"
  dependencies_seq :: int

text \<open>
  The exceptions that the operations let escape. \<open>IntegrityError\<close> is
  \<^verbatim>\<open>sqlite3.IntegrityError\<close>, raised when a statement violates a \<^verbatim>\<open>CHECK\<close> or
  \<^verbatim>\<open>UNIQUE\<close> constraint. \<open>OverflowError\<close> is raised by the \<^verbatim>\<open>sqlite3\<close> module when a
  Python integer bound to a statement parameter does not fit SQLite's signed 64-bit
  \<^verbatim>\<open>INTEGER\<close>; the statement is then not run at all.
\<close>

datatype error = IntegrityError | OverflowError

definition sqlite_int :: "int \<Rightarrow> bool" where
  "sqlite_int n = (- 9223372036854775808 \<le> n \<and> n \<le> 9223372036854775807)"

text \<open>
  The row id an \<^verbatim>\<open>AUTOINCREMENT\<close> table gives to a new row: one more than the largest
  row id the table has ever held.
\<close>

definition next_rowid :: "int \<Rightarrow> int list \<Rightarrow> int" where
  "next_rowid seq ids = fold max ids seq + 1"

text \<open>
  \<^verbatim>\<open>init_database\<close> on a fresh database file: both tables exist and are empty. On a
  database that already has the tables, \<^verbatim>\<open>IF NOT EXISTS\<close> makes it change nothing.
\<close>

definition init_database :: store where
  "init_database = \<lparr>chunks = [], chunks_seq = 0, dependencies = [], dependencies_seq = 0\<rparr>"

section \<open>Operations (operations.py)\<close>

text \<open>
  \<^verbatim>\<open>create_chunk\<close>:
  \<^verbatim>\<open>INSERT INTO chunks (name, description, difficulty) VALUES (?, ?, ?)\<close>,
  then \<^verbatim>\<open>return cursor.lastrowid\<close>.
  The function itself checks nothing; the insert fails on the \<^verbatim>\<open>CHECK\<close> constraint of
  the column \<^verbatim>\<open>difficulty\<close>, and the exception leaves the function before
  \<^verbatim>\<open>conn.commit()\<close>, so nothing is written. \<^verbatim>\<open>NOT NULL\<close> on \<^verbatim>\<open>name\<close> rejects
  \<^verbatim>\<open>None\<close> only, which the parameter type \<^verbatim>\<open>str\<close> excludes; the empty string is a value
  like any other. The columns not named take their defaults: \<^verbatim>\<open>completed = 0\<close>,
  \<^verbatim>\<open>created_at = CURRENT_TIMESTAMP\<close> (the argument \<open>now\<close>), \<^verbatim>\<open>completed_at\<close> NULL.
\<close>

definition create_chunk ::
  "store \<Rightarrow> timestamp \<Rightarrow> string \<Rightarrow> string \<Rightarrow> int \<Rightarrow> (error + int) \<times> store" where
  "create_chunk s now nm descr diff =
     (if \<not> sqlite_int diff then (Inl OverflowError, s)
      else if \<not> (1 \<le> diff \<and> diff \<le> 5) then (Inl IntegrityError, s)
      else
        let lastrowid = next_rowid (chunks_seq s) (map id_chunk (chunks s)) in
        (Inr lastrowid,
         s\<lparr>chunks := chunks s @
              [\<lparr>id_chunk = lastrowid, name = nm, description = descr, difficulty = diff,
                completed = False, created_at = Some now, completed_at = None\<rparr>],
           chunks_seq := lastrowid\<rparr>))"

text \<open>
  \<^verbatim>\<open>get_all_chunks\<close>: \<^verbatim>\<open>SELECT * FROM chunks ORDER BY created_at DESC\<close>.
  The order among rows with the same \<^verbatim>\<open>created_at\<close> is not fixed by the query; SQLite
  leaves them in the order of insertion, and so does the model (a stable ascending sort of
  the reversed table, reversed).
\<close>

definition get_all_chunks :: "store \<Rightarrow> chunk list" where
  "get_all_chunks s = rev (sort_key created_at (rev (chunks s)))"

text \<open>
  \<^verbatim>\<open>get_chunk_by_id\<close>: \<^verbatim>\<open>SELECT * FROM chunks WHERE id = ?\<close>, \<^verbatim>\<open>fetchone()\<close>,
  and \<^verbatim>\<open>None\<close> when there is no row.
\<close>

definition get_chunk_by_id :: "store \<Rightarrow> int \<Rightarrow> error + chunk option" where
  "get_chunk_by_id s cid =
     (if \<not> sqlite_int cid then Inl OverflowError
      else Inr (find (\<lambda>c. id_chunk c = cid) (chunks s)))"

text \<open>
  \<^verbatim>\<open>complete_chunk\<close>:
  \<^verbatim>\<open>UPDATE chunks SET completed = 1, completed_at = ? WHERE id = ?\<close> with
  \<^verbatim>\<open>datetime.now().isoformat()\<close> (the argument \<open>now\<close>), then
  \<^verbatim>\<open>return rows_affected > 0\<close>. The statement does not look at the old value of
  \<^verbatim>\<open>completed\<close>.
\<close>

definition complete_chunk :: "store \<Rightarrow> timestamp \<Rightarrow> int \<Rightarrow> (error + bool) \<times> store" where
  "complete_chunk s now cid =
     (if \<not> sqlite_int cid then (Inl OverflowError, s)
      else
        let rows_affected = length (filter (\<lambda>c. id_chunk c = cid) (chunks s)) in
        (Inr (rows_affected > 0),
         s\<lparr>chunks := map (\<lambda>c. if id_chunk c = cid
                                then c\<lparr>completed := True, completed_at := Some now\<rparr>
                                else c) (chunks s)\<rparr>))"

text \<open>
  \<^verbatim>\<open>add_dependency\<close>:
  \<^verbatim>\<open>INSERT INTO dependencies (chunk_id, depends_on_chunk_id) VALUES (?, ?)\<close> inside
  \<^verbatim>\<open>try\<close>; \<^verbatim>\<open>except sqlite3.IntegrityError: return False\<close>. The only constraint the
  insert can violate is \<^verbatim>\<open>UNIQUE(chunk_id, depends_on_chunk_id)\<close>: the connection of
  \<^verbatim>\<open>get_connection\<close> never issues \<^verbatim>\<open>PRAGMA foreign_keys = ON\<close>, and SQLite does not
  enforce foreign keys without it. \<open>edge_exists\<close> is the test of the \<^verbatim>\<open>UNIQUE\<close>
  constraint: a row with the same pair is already in the table. An \<open>OverflowError\<close> is not
  caught by the handler.
\<close>

definition edge_exists :: "store \<Rightarrow> int \<Rightarrow> int \<Rightarrow> bool" where
  "edge_exists s cid dep_id =
     list_ex (\<lambda>d. chunk_id d = cid \<and> depends_on_chunk_id d = dep_id) (dependencies s)"

definition add_dependency :: "store \<Rightarrow> int \<Rightarrow> int \<Rightarrow> (error + bool) \<times> store" where
  "add_dependency s cid dep_id =
     (if \<not> sqlite_int cid \<or> \<not> sqlite_int dep_id then (Inl OverflowError, s)
      else if edge_exists s cid dep_id then (Inr False, s)
      else
        let rowid = next_rowid (dependencies_seq s) (map id_dependency (dependencies s)) in
        (Inr True,
         s\<lparr>dependencies := dependencies s @
              [\<lparr>id_dependency = rowid, chunk_id = cid, depends_on_chunk_id = dep_id\<rparr>],
           dependencies_seq := rowid\<rparr>))"

text \<open>
  \<^verbatim>\<open>get_chunk_dependencies\<close>:
  \<^verbatim>\<open>
  SELECT c.* FROM chunks c
  JOIN dependencies d ON c.id = d.depends_on_chunk_id
  WHERE d.chunk_id = ?
  \<close>
  An inner join: one result row for each pair of an edge of the chunk and a chunk row the
  edge points to. An edge that points to no chunk row contributes nothing. The query has no
  \<^verbatim>\<open>ORDER BY\<close>, so the order of the rows is whatever SQLite's plan produces; the model
  lists them edge by edge in the order of insertion, which can differ from it. The rows are
  the same, and no statement below depends on their order.
\<close>

definition get_chunk_dependencies :: "store \<Rightarrow> int \<Rightarrow> error + chunk list" where
  "get_chunk_dependencies s cid =
     (if \<not> sqlite_int cid then Inl OverflowError
      else Inr (concat (map (\<lambda>d. filter (\<lambda>c. id_chunk c = depends_on_chunk_id d \<and> chunk_id d = cid)
                                      (chunks s))
                            (dependencies s))))"

text \<open>
  \<^verbatim>\<open>get_next_available_chunk\<close>:
  \<^verbatim>\<open>
  SELECT c.* FROM chunks c
  WHERE c.completed = 0
  AND NOT EXISTS (
      SELECT 1 FROM dependencies d
      JOIN chunks dep ON d.depends_on_chunk_id = dep.id
      WHERE d.chunk_id = c.id AND dep.completed = 0)
  ORDER BY c.difficulty ASC, c.created_at ASC
  LIMIT 1
  \<close>
  \<open>incomplete_dependency_exists\<close> is the subquery under \<^verbatim>\<open>NOT EXISTS\<close>. The sort key is
  the pair \<open>(difficulty, created_at)\<close> in the lexicographic order; on \<open>created_at\<close>,
  \<open>None\<close> is below every \<open>Some t\<close>, as SQLite puts NULL first in an ascending order.
  Which of several rows with equal keys comes first is not fixed by the query; the model
  sorts stably.
\<close>

definition incomplete_dependency_exists :: "store \<Rightarrow> chunk \<Rightarrow> bool" where
  "incomplete_dependency_exists s c =
     list_ex (\<lambda>d. list_ex (\<lambda>dep. depends_on_chunk_id d = id_chunk dep
                                 \<and> chunk_id d = id_chunk c \<and> \<not> completed dep) (chunks s))
             (dependencies s)"

definition get_next_available_chunk :: "store \<Rightarrow> chunk option" where
  "get_next_available_chunk s =
     (case sort_key (\<lambda>c. (difficulty c, created_at c))
             (filter (\<lambda>c. \<not> completed c \<and> \<not> incomplete_dependency_exists s c) (chunks s)) of
        [] \<Rightarrow> None
      | row # _ \<Rightarrow> Some row)"

section \<open>The completion gate (cli.py, command complete)\<close>

text \<open>
  \<^verbatim>\<open>
  chunk = operations.get_chunk_by_id(chunk_id)
  if not chunk:            ... not found, Exit(1)
  if chunk.completed:      ... already completed, return
  deps = operations.get_chunk_dependencies(chunk_id)
  incomplete_deps = [d for d in deps if not d.completed]
  if incomplete_deps:      ... lists them, Exit(1)
  if operations.complete_chunk(chunk_id): ...
  \<close>
  \<open>can_complete\<close> is the part of the command before \<^verbatim>\<open>complete_chunk\<close>, and
  \<open>complete\<close> the whole command.
\<close>

datatype gate = NotFound | AlreadyCompleted | Blocked "chunk list" | Pass

definition can_complete :: "store \<Rightarrow> int \<Rightarrow> error + gate" where
  "can_complete s cid =
     (case get_chunk_by_id s cid of
        Inl e \<Rightarrow> Inl e
      | Inr None \<Rightarrow> Inr NotFound
      | Inr (Some chunk) \<Rightarrow>
          if completed chunk then Inr AlreadyCompleted
          else (case get_chunk_dependencies s cid of
                  Inl e \<Rightarrow> Inl e
                | Inr deps \<Rightarrow>
                    let incomplete_deps = filter (\<lambda>d. \<not> completed d) deps in
                    if incomplete_deps \<noteq> [] then Inr (Blocked incomplete_deps)
                    else Inr Pass))"

definition complete :: "store \<Rightarrow> timestamp \<Rightarrow> int \<Rightarrow> (error + gate) \<times> store" where
  "complete s now cid =
     (case can_complete s cid of
        Inr Pass \<Rightarrow>
          (case complete_chunk s now cid of
             (Inl e, s') \<Rightarrow> (Inl e, s')
           | (Inr _, s') \<Rightarrow> (Inr Pass, s'))
      | r \<Rightarrow> (r, s))"

section \<open>Sequences of operations\<close>

text \<open>
  A caller can invoke the exposed operations in any order and with any arguments. The
  queries only run \<^verbatim>\<open>SELECT\<close> statements and leave the store as it is.
\<close>

datatype operation =
    Create_chunk timestamp string string int
  | Complete_chunk timestamp int
  | Add_dependency int int
  | Complete timestamp int
  | Get_all_chunks
  | Get_chunk_by_id int
  | Get_chunk_dependencies int
  | Get_next_available_chunk

fun exec :: "store \<Rightarrow> operation \<Rightarrow> store" where
  "exec s (Create_chunk now nm descr diff) = snd (create_chunk s now nm descr diff)"
| "exec s (Complete_chunk now cid) = snd (complete_chunk s now cid)"
| "exec s (Add_dependency cid dep_id) = snd (add_dependency s cid dep_id)"
| "exec s (Complete now cid) = snd (complete s now cid)"
| "exec s Get_all_chunks = s"
| "exec s (Get_chunk_by_id cid) = s"
| "exec s (Get_chunk_dependencies cid) = s"
| "exec s Get_next_available_chunk = s"

definition run :: "store \<Rightarrow> operation list \<Rightarrow> store" where
  "run s ops = foldl exec s ops"

section \<open>The specification's notions\<close>

text \<open>
  These two definitions follow the words of the specification, not the code; the theorems
  below compare the queries of the code with them.
  The direct dependencies of a chunk are the chunks of the store that one of its
  dependency edges points to. A candidate is a chunk of the store that is incomplete and
  whose direct dependencies are all completed.
\<close>

definition spec_direct_dependencies :: "store \<Rightarrow> int \<Rightarrow> chunk list" where
  "spec_direct_dependencies s cid =
     filter (\<lambda>dep. list_ex (\<lambda>d. chunk_id d = cid \<and> depends_on_chunk_id d = id_chunk dep)
                            (dependencies s))
            (chunks s)"

definition spec_candidate :: "store \<Rightarrow> chunk \<Rightarrow> bool" where
  "spec_candidate s c =
     (c \<in> set (chunks s) \<and> \<not> completed c
      \<and> list_all completed (spec_direct_dependencies s (id_chunk c)))"

section \<open>Names used in the proofs\<close>

text \<open>
  The stores that the three writing statements leave behind when they succeed, the row
  update of \<^verbatim>\<open>complete_chunk\<close>, and the rows of the join of
  \<^verbatim>\<open>get_chunk_dependencies\<close>. The lemmas \<open>create_chunk_eq\<close>,
  \<open>complete_chunk_eq\<close>, \<open>add_dependency_eq\<close> and \<open>get_chunk_dependencies_eq\<close>
  show that the operations above compute exactly these.
\<close>

definition mark :: "timestamp \<Rightarrow> int \<Rightarrow> chunk \<Rightarrow> chunk" where
  "mark now cid c =
     (if id_chunk c = cid then c\<lparr>completed := True, completed_at := Some now\<rparr> else c)"

definition inserted_chunk :: "store \<Rightarrow> timestamp \<Rightarrow> string \<Rightarrow> string \<Rightarrow> int \<Rightarrow> store" where
  "inserted_chunk s now nm descr diff =
     s\<lparr>chunks := chunks s @
          [\<lparr>id_chunk = next_rowid (chunks_seq s) (map id_chunk (chunks s)), name = nm,
            description = descr, difficulty = diff,
            completed = False, created_at = Some now, completed_at = None\<rparr>],
       chunks_seq := next_rowid (chunks_seq s) (map id_chunk (chunks s))\<rparr>"

definition updated_chunks :: "store \<Rightarrow> timestamp \<Rightarrow> int \<Rightarrow> store" where
  "updated_chunks s now cid = s\<lparr>chunks := map (mark now cid) (chunks s)\<rparr>"

definition inserted_dependency :: "store \<Rightarrow> int \<Rightarrow> int \<Rightarrow> store" where
  "inserted_dependency s cid dep_id =
     s\<lparr>dependencies := dependencies s @
          [\<lparr>id_dependency = next_rowid (dependencies_seq s) (map id_dependency (dependencies s)),
            chunk_id = cid, depends_on_chunk_id = dep_id\<rparr>],
       dependencies_seq := next_rowid (dependencies_seq s) (map id_dependency (dependencies s))\<rparr>"

definition joined_rows :: "store \<Rightarrow> int \<Rightarrow> chunk list" where
  "joined_rows s cid =
     concat (map (\<lambda>d. filter (\<lambda>c. id_chunk c = depends_on_chunk_id d \<and> chunk_id d = cid)
                              (chunks s))
                 (dependencies s))"

text \<open>Properties of a store that every operation keeps.\<close>

definition difficulty_ok :: "store \<Rightarrow> bool" where
  "difficulty_ok s = list_all (\<lambda>c. 1 \<le> difficulty c \<and> difficulty c \<le> 5) (chunks s)"

definition completed_at_ok :: "store \<Rightarrow> bool" where
  "completed_at_ok s = list_all (\<lambda>c. (completed_at c \<noteq> None) = completed c) (chunks s)"

definition completed_row :: "store \<Rightarrow> int \<Rightarrow> bool" where
  "completed_row s cid =
     (case find (\<lambda>c. id_chunk c = cid) (chunks s) of None \<Rightarrow> False | Some c \<Rightarrow> completed c)"

section \<open>Example stores\<close>

text \<open>
  The scenario of \<^verbatim>\<open>tests/test_operations.py\<close>: two chunks, the second depending on
  the first; and variations of it.
\<close>

definition chunk_pandas :: chunk where
  "chunk_pandas = \<lparr>id_chunk = 1, name = ''Learn Pandas'', description = ''Learn pandas basics'',
     difficulty = 2, completed = False, created_at = Some 100, completed_at = None\<rparr>"

definition chunk_model :: chunk where
  "chunk_model = \<lparr>id_chunk = 2, name = ''Build ML Model'', description = ''Create a simple model'',
     difficulty = 4, completed = False, created_at = Some 101, completed_at = None\<rparr>"

definition scenario_ops :: "operation list" where
  "scenario_ops =
     [Create_chunk 100 ''Learn Pandas'' ''Learn pandas basics'' 2,
      Create_chunk 101 ''Build ML Model'' ''Create a simple model'' 4,
      Add_dependency 2 1]"

definition scenario_A :: store where
  "scenario_A = run init_database scenario_ops"

text \<open>The first chunk has been completed through the command.\<close>

definition scenario_B :: store where
  "scenario_B = run scenario_A [Complete 200 1]"

text \<open>A chunk is completed first and given a dependency on an incomplete chunk afterwards.\<close>

definition scenario_late_edge :: store where
  "scenario_late_edge = run init_database
     [Create_chunk 100 ''Learn Pandas'' ''Learn pandas basics'' 2,
      Create_chunk 101 ''Build ML Model'' ''Create a simple model'' 4,
      Complete 200 1,
      Add_dependency 1 2]"

text \<open>One chunk with an edge to the id 99, which no chunk has.\<close>

definition scenario_dangling :: store where
  "scenario_dangling = run init_database
     [Create_chunk 100 ''Learn Pandas'' ''Learn pandas basics'' 2,
      Add_dependency 1 99]"

text \<open>One chunk that depends on itself.\<close>

definition scenario_self_loop :: store where
  "scenario_self_loop = run init_database
     [Create_chunk 100 ''Learn Pandas'' ''Learn pandas basics'' 2,
      Add_dependency 1 1]"

section \<open>What the operations compute\<close>

lemma create_chunk_eq:
  "create_chunk s now nm descr diff =
     (if \<not> sqlite_int diff then (Inl OverflowError, s)
      else if \<not> (1 \<le> diff \<and> diff \<le> 5) then (Inl IntegrityError, s)
      else (Inr (next_rowid (chunks_seq s) (map id_chunk (chunks s))),
            inserted_chunk s now nm descr diff))"
  by (simp add: create_chunk_def inserted_chunk_def Let_def)

lemma complete_chunk_eq:
  "complete_chunk s now cid =
     (if \<not> sqlite_int cid then (Inl OverflowError, s)
      else (Inr (list_ex (\<lambda>c. id_chunk c = cid) (chunks s)), updated_chunks s now cid))"
proof -
  have "(0 < length (filter (\<lambda>c. id_chunk c = cid) (chunks s)))
          = list_ex (\<lambda>c. id_chunk c = cid) (chunks s)"
    by (simp add: list_ex_iff filter_empty_conv)
  moreover have "(\<lambda>c. if id_chunk c = cid
                       then c\<lparr>completed := True, completed_at := Some now\<rparr> else c) = mark now cid"
    by (rule ext) (simp add: mark_def)
  ultimately show ?thesis
    by (simp add: complete_chunk_def updated_chunks_def Let_def)
qed

lemma add_dependency_eq:
  "add_dependency s cid dep_id =
     (if \<not> sqlite_int cid \<or> \<not> sqlite_int dep_id then (Inl OverflowError, s)
      else if edge_exists s cid dep_id then (Inr False, s)
      else (Inr True, inserted_dependency s cid dep_id))"
  by (simp add: add_dependency_def inserted_dependency_def Let_def)

lemma get_chunk_dependencies_eq:
  "get_chunk_dependencies s cid =
     (if \<not> sqlite_int cid then Inl OverflowError else Inr (joined_rows s cid))"
  by (simp add: get_chunk_dependencies_def joined_rows_def)

lemma can_complete_eq:
  assumes "get_chunk_by_id s cid = Inr (Some c)"
  shows "can_complete s cid =
     (if completed c then Inr AlreadyCompleted
      else if filter (\<lambda>d. \<not> completed d) (joined_rows s cid) \<noteq> []
           then Inr (Blocked (filter (\<lambda>d. \<not> completed d) (joined_rows s cid)))
           else Inr Pass)"
proof -
  from assms have "sqlite_int cid" by (auto simp: get_chunk_by_id_def split: if_splits)
  with assms show ?thesis
    by (simp add: can_complete_def get_chunk_dependencies_eq Let_def)
qed

lemma snd_complete:
  "snd (complete s now cid) =
     (if can_complete s cid = Inr Pass then snd (complete_chunk s now cid) else s)"
  by (simp add: complete_def split: sum.splits gate.splits prod.splits)

text \<open>
  Every operation leaves the store as it was, or appends one chunk row with a difficulty
  between 1 and 5, or marks the rows of one id completed, or appends one dependency row.
\<close>

lemma exec_cases:
  obtains
    (same) "exec s op = s"
  | (created) now nm descr diff where "1 \<le> diff" "diff \<le> 5"
      "exec s op = inserted_chunk s now nm descr diff"
  | (completed) now cid where "exec s op = updated_chunks s now cid"
  | (added) cid dep_id where "exec s op = inserted_dependency s cid dep_id"
proof (cases op)
  case (Create_chunk now nm descr diff)
  show ?thesis
  proof (cases "sqlite_int diff \<and> 1 \<le> diff \<and> diff \<le> 5")
    case True
    then have "exec s op = inserted_chunk s now nm descr diff"
      using Create_chunk by (simp add: create_chunk_eq)
    with True show ?thesis using created by blast
  next
    case False
    then have "exec s op = s" using Create_chunk by (auto simp: create_chunk_eq)
    then show ?thesis by (rule same)
  qed
next
  case (Complete_chunk now cid)
  then have "exec s op = s \<or> exec s op = updated_chunks s now cid"
    by (simp add: complete_chunk_eq)
  then show ?thesis using same completed by blast
next
  case (Add_dependency cid dep_id)
  then have "exec s op = s \<or> exec s op = inserted_dependency s cid dep_id"
    by (simp add: add_dependency_eq)
  then show ?thesis using same added by blast
next
  case (Complete now cid)
  then have "exec s op = s \<or> exec s op = updated_chunks s now cid"
    by (simp add: snd_complete complete_chunk_eq)
  then show ?thesis using same completed by blast
qed (simp_all add: same)

lemma run_Nil: "run s [] = s"
  by (simp add: run_def)

lemma run_Cons: "run s (op # ops) = run (exec s op) ops"
  by (simp add: run_def)

lemma run_invariant:
  assumes "P s" and "\<And>s op. P s \<Longrightarrow> P (exec s op)"
  shows "P (run s ops)"
  using assms(1)
proof (induction ops arbitrary: s)
  case Nil
  then show ?case by (simp add: run_Nil)
next
  case (Cons op ops)
  then show ?case using assms(2) by (simp add: run_Cons)
qed

lemmas shape_defs = inserted_chunk_def updated_chunks_def inserted_dependency_def

section \<open>What every operation keeps\<close>

lemma difficulty_ok_exec: "difficulty_ok s \<Longrightarrow> difficulty_ok (exec s op)"
  by (rule exec_cases [of s op])
    (auto simp: difficulty_ok_def list_all_iff shape_defs mark_def)

lemma completed_at_ok_exec: "completed_at_ok s \<Longrightarrow> completed_at_ok (exec s op)"
  by (rule exec_cases [of s op])
    (auto simp: completed_at_ok_def list_all_iff shape_defs mark_def)

lemma edge_exists_exec: "edge_exists s a b \<Longrightarrow> edge_exists (exec s op) a b"
  by (rule exec_cases [of s op]) (auto simp: edge_exists_def list_ex_iff shape_defs)

lemma edge_exists_run: "edge_exists s a b \<Longrightarrow> edge_exists (run s ops) a b"
  by (rule run_invariant [where P = "\<lambda>s. edge_exists s a b"]) (auto intro: edge_exists_exec)

lemma find_append_id:
  "find P (xs @ ys) = (case find P xs of None \<Rightarrow> find P ys | Some x \<Rightarrow> Some x)"
  by (induction xs) auto

lemma find_map_mark:
  "find (\<lambda>c. id_chunk c = cid) (map (mark now cid') xs)
     = map_option (mark now cid') (find (\<lambda>c. id_chunk c = cid) xs)"
  by (induction xs) (auto simp: mark_def)

lemma id_chunk_mark: "id_chunk (mark now cid c) = id_chunk c"
  by (simp add: mark_def)

lemma completed_row_exec: "completed_row s cid \<Longrightarrow> completed_row (exec s op) cid"
  by (rule exec_cases [of s op])
    (auto simp: completed_row_def shape_defs find_append_id find_map_mark mark_def
       split: option.splits)

lemma completed_row_run: "completed_row s cid \<Longrightarrow> completed_row (run s ops) cid"
  by (rule run_invariant [where P = "\<lambda>s. completed_row s cid"]) (auto intro: completed_row_exec)

section \<open>The queries and the specification's notions\<close>

lemma candidate_filter:
  "c \<in> set (filter (\<lambda>c. \<not> completed c \<and> \<not> incomplete_dependency_exists s c) (chunks s))
     \<longleftrightarrow> spec_candidate s c"
  by (auto simp: spec_candidate_def spec_direct_dependencies_def incomplete_dependency_exists_def
        list_ex_iff list_all_iff)

lemma sort_key_Nil_iff: "sort_key f xs = [] \<longleftrightarrow> xs = []"
  by (metis set_sort set_empty)

lemma sort_key_head:
  assumes "sort_key f xs = y # ys"
  shows "y \<in> set xs \<and> (\<forall>x \<in> set xs. f y \<le> f x)"
proof -
  have "set (y # ys) = set xs" using assms by (metis set_sort)
  moreover have "sorted (map f (y # ys))" using assms by (metis sorted_sort_key)
  ultimately show ?thesis by auto
qed

lemma key_le_iff:
  "((a::int, b::timestamp option) \<le> (a', b')) \<longleftrightarrow> (a < a' \<or> (a = a' \<and> b \<le> b'))"
  by (auto simp: less_eq_prod_def)

lemma next_available_Some:
  assumes "get_next_available_chunk s = Some c"
  shows "c \<in> set (chunks s) \<and> \<not> completed c \<and> \<not> incomplete_dependency_exists s c"
proof -
  from assms obtain rest where
    "sort_key (\<lambda>c. (difficulty c, created_at c))
       (filter (\<lambda>c. \<not> completed c \<and> \<not> incomplete_dependency_exists s c) (chunks s)) = c # rest"
    by (auto simp: get_next_available_chunk_def split: list.splits)
  from sort_key_head [OF this] show ?thesis by simp
qed

lemma set_joined_rows: "set (joined_rows s cid) = set (spec_direct_dependencies s cid)"
  by (auto simp: joined_rows_def spec_direct_dependencies_def list_ex_iff)

lemma distinct_concat_filter:
  assumes "distinct xs" and "distinct (map k ds)"
    and "\<And>x d d'. P d x \<Longrightarrow> P d' x \<Longrightarrow> k d = k d'"
  shows "distinct (concat (map (\<lambda>d. filter (P d) xs) ds))"
  using assms(2)
proof (induction ds)
  case Nil
  then show ?case by simp
next
  case (Cons d ds)
  have "x \<notin> set (concat (map (\<lambda>d. filter (P d) xs) ds))" if "P d x" for x
  proof
    assume "x \<in> set (concat (map (\<lambda>d. filter (P d) xs) ds))"
    then obtain d' where d': "d' \<in> set ds" "P d' x" by auto
    from that d'(2) have "k d = k d'" by (rule assms(3))
    with d'(1) have "k d \<in> k ` set ds" by (simp only: imageI)
    with Cons.prems show False by simp
  qed
  with Cons assms(1) show ?case by auto
qed

lemma distinct_joined_rows:
  assumes "distinct (map id_chunk (chunks s))"
    and "distinct (map (\<lambda>d. (chunk_id d, depends_on_chunk_id d)) (dependencies s))"
  shows "distinct (joined_rows s cid)"
proof -
  from assms(1) have "distinct (chunks s)" by (simp add: distinct_map)
  then show ?thesis
    unfolding joined_rows_def
    by (rule distinct_concat_filter [OF _ assms(2)]) simp
qed

lemma self_loop_blocks:
  assumes "edge_exists s cid cid"
  shows "(\<forall>c'. get_next_available_chunk s = Some c' \<longrightarrow> id_chunk c' \<noteq> cid)
         \<and> can_complete s cid \<noteq> Inr Pass"
proof
  show "\<forall>c'. get_next_available_chunk s = Some c' \<longrightarrow> id_chunk c' \<noteq> cid"
  proof (intro allI impI notI)
    fix c' assume r: "get_next_available_chunk s = Some c'" and i: "id_chunk c' = cid"
    from next_available_Some [OF r] have
      "c' \<in> set (chunks s)" "\<not> completed c'" "\<not> incomplete_dependency_exists s c'" by auto
    moreover from this(1,2) assms i have "incomplete_dependency_exists s c'"
      by (auto simp: incomplete_dependency_exists_def edge_exists_def list_ex_iff)
    ultimately show False by simp
  qed
  show "can_complete s cid \<noteq> Inr Pass"
  proof (cases "get_chunk_by_id s cid")
    case (Inl e)
    then show ?thesis by (simp add: can_complete_def)
  next
    case (Inr r)
    show ?thesis
    proof (cases r)
      case None
      with Inr show ?thesis by (simp add: can_complete_def)
    next
      case (Some c)
      with Inr have g: "get_chunk_by_id s cid = Inr (Some c)" by simp
      then have "find (\<lambda>c. id_chunk c = cid) (chunks s) = Some c"
        by (auto simp: get_chunk_by_id_def split: if_splits)
      then have c: "c \<in> set (chunks s)" "id_chunk c = cid" by (auto simp: find_Some_iff)
      from assms obtain d where "d \<in> set (dependencies s)" "chunk_id d = cid"
        "depends_on_chunk_id d = cid"
        by (auto simp: edge_exists_def list_ex_iff)
      with c have "c \<in> set (joined_rows s cid)"
        by (auto simp: joined_rows_def intro!: bexI [of _ d])
      then have "\<not> completed c \<Longrightarrow> c \<in> set (filter (\<lambda>d. \<not> completed d) (joined_rows s cid))"
        by simp
      then have "\<not> completed c \<Longrightarrow> filter (\<lambda>d. \<not> completed d) (joined_rows s cid) \<noteq> []"
        by (metis empty_iff empty_set)
      then show ?thesis by (auto simp: can_complete_eq [OF g])
    qed
  qed
qed

section \<open>The example stores, evaluated\<close>

lemmas eval_defs = run_def create_chunk_def complete_chunk_def add_dependency_def
  init_database_def next_rowid_def sqlite_int_def complete_def can_complete_def
  get_chunk_by_id_def get_chunk_dependencies_def edge_exists_def
  get_next_available_chunk_def incomplete_dependency_exists_def
  spec_candidate_def spec_direct_dependencies_def less_eq_prod_def
  chunk_pandas_def chunk_model_def

lemma scenario_A_eq: "scenario_A =
  \<lparr>chunks = [chunk_pandas, chunk_model], chunks_seq = 2,
   dependencies = [\<lparr>id_dependency = 1, chunk_id = 2, depends_on_chunk_id = 1\<rparr>],
   dependencies_seq = 1\<rparr>"
  by (simp add: scenario_A_def scenario_ops_def eval_defs)

lemma scenario_B_eq: "scenario_B =
  \<lparr>chunks = [chunk_pandas\<lparr>completed := True, completed_at := Some 200\<rparr>, chunk_model],
   chunks_seq = 2,
   dependencies = [\<lparr>id_dependency = 1, chunk_id = 2, depends_on_chunk_id = 1\<rparr>],
   dependencies_seq = 1\<rparr>"
  by (simp add: scenario_B_def scenario_A_eq eval_defs)

lemma scenario_late_edge_eq: "scenario_late_edge =
  \<lparr>chunks = [chunk_pandas\<lparr>completed := True, completed_at := Some 200\<rparr>, chunk_model],
   chunks_seq = 2,
   dependencies = [\<lparr>id_dependency = 1, chunk_id = 1, depends_on_chunk_id = 2\<rparr>],
   dependencies_seq = 1\<rparr>"
  by (simp add: scenario_late_edge_def eval_defs)

lemma scenario_dangling_eq: "scenario_dangling =
  \<lparr>chunks = [chunk_pandas], chunks_seq = 1,
   dependencies = [\<lparr>id_dependency = 1, chunk_id = 1, depends_on_chunk_id = 99\<rparr>],
   dependencies_seq = 1\<rparr>"
  by (simp add: scenario_dangling_def eval_defs)

lemma scenario_self_loop_eq: "scenario_self_loop =
  \<lparr>chunks = [chunk_pandas], chunks_seq = 1,
   dependencies = [\<lparr>id_dependency = 1, chunk_id = 1, depends_on_chunk_id = 1\<rparr>],
   dependencies_seq = 1\<rparr>"
  by (simp add: scenario_self_loop_def eval_defs)

section \<open>Selection of the next chunk\<close>

text \<open>
  C1. In every store, \<^verbatim>\<open>get_next_available_chunk\<close> never returns a chunk that is
  completed or that has an incomplete direct dependency. When some chunk is a candidate
  (incomplete, every direct dependency completed), the result is a candidate whose
  \<open>(difficulty, created_at)\<close> is least among all candidates: a lower difficulty, or the
  same difficulty and a creation time that is not later. When no chunk is a candidate, the
  result is \<open>None\<close>.
\<close>

theorem next_available_selection:
  "(\<forall>c. get_next_available_chunk s = Some c \<longrightarrow>
        c \<in> set (chunks s) \<and> \<not> completed c
        \<and> (\<forall>dep \<in> set (spec_direct_dependencies s (id_chunk c)). completed dep))
   \<and> ((\<exists>c. spec_candidate s c) \<longrightarrow>
        (\<exists>c. get_next_available_chunk s = Some c \<and> spec_candidate s c
           \<and> (\<forall>c'. spec_candidate s c' \<longrightarrow>
                 difficulty c < difficulty c'
                 \<or> (difficulty c = difficulty c' \<and> created_at c \<le> created_at c'))))
   \<and> (\<not> (\<exists>c. spec_candidate s c) \<longrightarrow> get_next_available_chunk s = None)"
proof -
  let ?cands = "filter (\<lambda>c. \<not> completed c \<and> \<not> incomplete_dependency_exists s c) (chunks s)"
  let ?key = "\<lambda>c. (difficulty c, created_at c)"
  have some: "spec_candidate s c \<and> (\<forall>c'. spec_candidate s c' \<longrightarrow> ?key c \<le> ?key c')"
    if "get_next_available_chunk s = Some c" for c
  proof -
    from that obtain rest where "sort_key ?key ?cands = c # rest"
      by (auto simp: get_next_available_chunk_def split: list.splits)
    from sort_key_head [OF this] show ?thesis
      unfolding candidate_filter [symmetric] by blast
  qed
  have none: "\<not> spec_candidate s c" if "get_next_available_chunk s = None" for c
  proof -
    from that have "sort_key ?key ?cands = []"
      by (auto simp: get_next_available_chunk_def split: list.splits)
    then have "?cands = []" by (simp only: sort_key_Nil_iff)
    then show ?thesis unfolding candidate_filter [symmetric] by simp
  qed
  have p1: "\<forall>c. get_next_available_chunk s = Some c \<longrightarrow>
        c \<in> set (chunks s) \<and> \<not> completed c
        \<and> (\<forall>dep \<in> set (spec_direct_dependencies s (id_chunk c)). completed dep)"
    using some by (auto simp: spec_candidate_def list_all_iff)
  have p2: "(\<exists>c. spec_candidate s c) \<longrightarrow>
        (\<exists>c. get_next_available_chunk s = Some c \<and> spec_candidate s c
           \<and> (\<forall>c'. spec_candidate s c' \<longrightarrow>
                 difficulty c < difficulty c'
                 \<or> (difficulty c = difficulty c' \<and> created_at c \<le> created_at c')))"
  proof
    assume "\<exists>c. spec_candidate s c"
    with none obtain c where c: "get_next_available_chunk s = Some c"
      by (cases "get_next_available_chunk s") auto
    from some [OF c] show "\<exists>c. get_next_available_chunk s = Some c \<and> spec_candidate s c
           \<and> (\<forall>c'. spec_candidate s c' \<longrightarrow>
                 difficulty c < difficulty c'
                 \<or> (difficulty c = difficulty c' \<and> created_at c \<le> created_at c'))"
      using c by (auto simp: key_le_iff)
  qed
  have p3: "\<not> (\<exists>c. spec_candidate s c) \<longrightarrow> get_next_available_chunk s = None"
    using some by (cases "get_next_available_chunk s") auto
  from p1 p2 p3 show ?thesis by blast
qed

text \<open>
  In the store of the test scenario the first chunk is a candidate and a least candidate is
  returned; in the empty store nothing is a candidate and the result is \<open>None\<close>.
\<close>

theorem next_available_selection_witness:
  "((\<exists>c. spec_candidate scenario_A c) \<and>
    (\<exists>c. get_next_available_chunk scenario_A = Some c \<and> spec_candidate scenario_A c
       \<and> (\<forall>c'. spec_candidate scenario_A c' \<longrightarrow>
             difficulty c < difficulty c'
             \<or> (difficulty c = difficulty c' \<and> created_at c \<le> created_at c'))))
   \<and> (\<not> (\<exists>c. spec_candidate init_database c) \<and> get_next_available_chunk init_database = None)"
proof -
  have "spec_candidate scenario_A chunk_pandas"
    by (simp add: scenario_A_eq eval_defs)
  then have h1: "\<exists>c. spec_candidate scenario_A c" ..
  have h2: "\<not> (\<exists>c. spec_candidate init_database c)"
    by (simp add: spec_candidate_def init_database_def)
  from next_available_selection [of scenario_A] next_available_selection [of init_database] h1 h2
  show ?thesis by blast
qed

section \<open>The completion gate\<close>

text \<open>
  C2. Let \<open>c\<close> be the chunk that the store holds under the id \<open>cid\<close>. The gate reads the
  chunk first and the dependencies afterwards (steps 2 and 3 to 5 of the specification's
  gate):
  \<^item> if the gate passes, the chunk is not yet completed and every direct dependency of it is
    completed;
  \<^item> if the chunk is already completed, the gate answers \<open>AlreadyCompleted\<close>, whatever its
    dependencies are;
  \<^item> if the chunk is not completed and some direct dependency is incomplete, the gate answers
    \<open>Blocked\<close> with a list whose members are exactly the incomplete direct dependencies;
    where the ids of the chunks and the pairs of the edges are unique, as the keys of the
    two tables make them, no chunk is listed twice;
  \<^item> if the chunk is not completed and every direct dependency is completed, the gate passes.
\<close>

theorem gate_soundness:
  "get_chunk_by_id s cid = Inr (Some c) \<longrightarrow>
     (can_complete s cid = Inr Pass \<longrightarrow>
        \<not> completed c \<and> (\<forall>dep \<in> set (spec_direct_dependencies s cid). completed dep))
     \<and> (completed c \<longrightarrow> can_complete s cid = Inr AlreadyCompleted)
     \<and> (\<not> completed c \<and> (\<exists>dep \<in> set (spec_direct_dependencies s cid). \<not> completed dep) \<longrightarrow>
          (\<exists>blocking. can_complete s cid = Inr (Blocked blocking)
             \<and> set blocking = {dep \<in> set (spec_direct_dependencies s cid). \<not> completed dep}
             \<and> (distinct (map id_chunk (chunks s))
                  \<and> distinct (map (\<lambda>d. (chunk_id d, depends_on_chunk_id d)) (dependencies s))
                \<longrightarrow> distinct blocking)))
     \<and> (\<not> completed c \<and> (\<forall>dep \<in> set (spec_direct_dependencies s cid). completed dep) \<longrightarrow>
          can_complete s cid = Inr Pass)"
proof
  assume c: "get_chunk_by_id s cid = Inr (Some c)"
  let ?inc = "filter (\<lambda>d. \<not> completed d) (joined_rows s cid)"
  have set_inc: "set ?inc = {dep \<in> set (spec_direct_dependencies s cid). \<not> completed dep}"
    by (auto simp: set_joined_rows)
  have dist: "distinct (map id_chunk (chunks s))
                  \<and> distinct (map (\<lambda>d. (chunk_id d, depends_on_chunk_id d)) (dependencies s))
                \<longrightarrow> distinct ?inc"
    by (simp add: distinct_joined_rows)
  have p1: "can_complete s cid = Inr Pass \<longrightarrow>
        \<not> completed c \<and> (\<forall>dep \<in> set (spec_direct_dependencies s cid). completed dep)"
  proof
    assume pass: "can_complete s cid = Inr Pass"
    then have nc: "\<not> completed c" by (simp add: can_complete_eq [OF c] split: if_splits)
    from pass have "?inc = []" by (simp add: can_complete_eq [OF c] split: if_splits)
    then have "\<forall>dep \<in> set (joined_rows s cid). completed dep"
      by (simp add: filter_empty_conv)
    then have "\<forall>dep \<in> set (spec_direct_dependencies s cid). completed dep"
      by (simp only: set_joined_rows)
    with nc show "\<not> completed c \<and> (\<forall>dep \<in> set (spec_direct_dependencies s cid). completed dep)"
      by (rule conjI)
  qed
  have p2: "completed c \<longrightarrow> can_complete s cid = Inr AlreadyCompleted"
    by (simp add: can_complete_eq [OF c])
  have p3: "\<not> completed c \<and> (\<exists>dep \<in> set (spec_direct_dependencies s cid). \<not> completed dep) \<longrightarrow>
          (\<exists>blocking. can_complete s cid = Inr (Blocked blocking)
             \<and> set blocking = {dep \<in> set (spec_direct_dependencies s cid). \<not> completed dep}
             \<and> (distinct (map id_chunk (chunks s))
                  \<and> distinct (map (\<lambda>d. (chunk_id d, depends_on_chunk_id d)) (dependencies s))
                \<longrightarrow> distinct blocking))"
  proof
    assume a: "\<not> completed c \<and> (\<exists>dep \<in> set (spec_direct_dependencies s cid). \<not> completed dep)"
    then have "\<exists>dep \<in> set (joined_rows s cid). \<not> completed dep"
      by (simp only: set_joined_rows)
    then have "?inc \<noteq> []" by (simp add: filter_empty_conv)
    with a have "can_complete s cid = Inr (Blocked ?inc)" by (simp add: can_complete_eq [OF c])
    with set_inc dist show "\<exists>blocking. can_complete s cid = Inr (Blocked blocking)
             \<and> set blocking = {dep \<in> set (spec_direct_dependencies s cid). \<not> completed dep}
             \<and> (distinct (map id_chunk (chunks s))
                  \<and> distinct (map (\<lambda>d. (chunk_id d, depends_on_chunk_id d)) (dependencies s))
                \<longrightarrow> distinct blocking)"
      by blast
  qed
  have p4: "\<not> completed c \<and> (\<forall>dep \<in> set (spec_direct_dependencies s cid). completed dep) \<longrightarrow>
          can_complete s cid = Inr Pass"
  proof
    assume a: "\<not> completed c \<and> (\<forall>dep \<in> set (spec_direct_dependencies s cid). completed dep)"
    then have "\<forall>dep \<in> set (spec_direct_dependencies s cid). completed dep"
      by (rule conjunct2)
    then have "\<forall>dep \<in> set (joined_rows s cid). completed dep"
      by (simp only: set_joined_rows)
    then have "?inc = []" by (simp add: filter_empty_conv)
    with a show "can_complete s cid = Inr Pass" by (simp add: can_complete_eq [OF c])
  qed
  from p1 p2 p3 p4 show "(can_complete s cid = Inr Pass \<longrightarrow>
        \<not> completed c \<and> (\<forall>dep \<in> set (spec_direct_dependencies s cid). completed dep))
     \<and> (completed c \<longrightarrow> can_complete s cid = Inr AlreadyCompleted)
     \<and> (\<not> completed c \<and> (\<exists>dep \<in> set (spec_direct_dependencies s cid). \<not> completed dep) \<longrightarrow>
          (\<exists>blocking. can_complete s cid = Inr (Blocked blocking)
             \<and> set blocking = {dep \<in> set (spec_direct_dependencies s cid). \<not> completed dep}
             \<and> (distinct (map id_chunk (chunks s))
                  \<and> distinct (map (\<lambda>d. (chunk_id d, depends_on_chunk_id d)) (dependencies s))
                \<longrightarrow> distinct blocking)))
     \<and> (\<not> completed c \<and> (\<forall>dep \<in> set (spec_direct_dependencies s cid). completed dep) \<longrightarrow>
          can_complete s cid = Inr Pass)"
    by blast
qed

text \<open>
  After the first chunk of the scenario is completed, the gate passes for the second, whose
  one dependency is completed. Before that, the gate blocks the second chunk and lists the
  first. A chunk that was completed and then given a dependency on an incomplete chunk is
  reported as already completed.
\<close>

theorem gate_soundness_witness:
  "(get_chunk_by_id scenario_B 2 = Inr (Some chunk_model)
    \<and> can_complete scenario_B 2 = Inr Pass
    \<and> spec_direct_dependencies scenario_B 2 \<noteq> []
    \<and> list_all completed (spec_direct_dependencies scenario_B 2))
   \<and> (get_chunk_by_id scenario_A 2 = Inr (Some chunk_model)
      \<and> \<not> completed chunk_model
      \<and> (\<exists>dep \<in> set (spec_direct_dependencies scenario_A 2). \<not> completed dep)
      \<and> distinct (map id_chunk (chunks scenario_A))
      \<and> distinct (map (\<lambda>d. (chunk_id d, depends_on_chunk_id d)) (dependencies scenario_A))
      \<and> (\<exists>blocking. can_complete scenario_A 2 = Inr (Blocked blocking)
            \<and> set blocking = {dep \<in> set (spec_direct_dependencies scenario_A 2). \<not> completed dep}
            \<and> distinct blocking))
   \<and> (get_chunk_by_id scenario_late_edge 1
        = Inr (Some (chunk_pandas\<lparr>completed := True, completed_at := Some 200\<rparr>))
      \<and> completed (chunk_pandas\<lparr>completed := True, completed_at := Some 200\<rparr>)
      \<and> spec_direct_dependencies scenario_late_edge 1 = [chunk_model]
      \<and> can_complete scenario_late_edge 1 = Inr AlreadyCompleted)"
proof -
  have a: "get_chunk_by_id scenario_B 2 = Inr (Some chunk_model)"
    and b': "spec_direct_dependencies scenario_B 2 \<noteq> []"
    and b'': "list_all completed (spec_direct_dependencies scenario_B 2)"
    by (simp_all add: scenario_B_eq eval_defs)
  have c: "get_chunk_by_id scenario_A 2 = Inr (Some chunk_model)"
    and d: "\<not> completed chunk_model"
    and e: "\<exists>dep \<in> set (spec_direct_dependencies scenario_A 2). \<not> completed dep"
    and f: "distinct (map id_chunk (chunks scenario_A))"
    and g: "distinct (map (\<lambda>d. (chunk_id d, depends_on_chunk_id d)) (dependencies scenario_A))"
    by (simp_all add: scenario_A_eq eval_defs)
  have h: "get_chunk_by_id scenario_late_edge 1
        = Inr (Some (chunk_pandas\<lparr>completed := True, completed_at := Some 200\<rparr>))"
    and i: "completed (chunk_pandas\<lparr>completed := True, completed_at := Some 200\<rparr>)"
    and j: "spec_direct_dependencies scenario_late_edge 1 = [chunk_model]"
    by (simp_all add: scenario_late_edge_eq eval_defs)
  from b'' have all_B: "\<forall>dep \<in> set (spec_direct_dependencies scenario_B 2). completed dep"
    by (simp only: list_all_iff)
  from gate_soundness [of scenario_B 2 chunk_model] a d all_B
  have pass: "can_complete scenario_B 2 = Inr Pass" by blast
  from gate_soundness [of scenario_A 2 chunk_model] c d e f g
  have blocked: "\<exists>blocking. can_complete scenario_A 2 = Inr (Blocked blocking)
            \<and> set blocking = {dep \<in> set (spec_direct_dependencies scenario_A 2). \<not> completed dep}
            \<and> distinct blocking"
    by blast
  from gate_soundness
    [of scenario_late_edge 1 "chunk_pandas\<lparr>completed := True, completed_at := Some 200\<rparr>"] h i
  have already: "can_complete scenario_late_edge 1 = Inr AlreadyCompleted" by blast
  from a pass b' b'' c d e f g blocked h i j already show ?thesis by blast
qed

section \<open>Validation of the difficulty\<close>

text \<open>
  C3. For every difficulty outside 1..5, \<^verbatim>\<open>create_chunk\<close> fails and leaves the store as
  it was, so no row is written. The failure is the exception of the \<^verbatim>\<open>CHECK\<close>
  constraint, \<open>IntegrityError\<close> (for a difficulty that does not even fit an SQLite integer,
  \<open>OverflowError\<close>); this is the validation error of the specification. Consequently, in
  every store reached from the empty one by the operations, every chunk has a difficulty
  in 1..5.
\<close>

theorem difficulty_range_enforced:
  "(diff < 1 \<or> 5 < diff \<longrightarrow>
      create_chunk s now nm descr diff
        = (Inl (if sqlite_int diff then IntegrityError else OverflowError), s))
   \<and> (\<forall>c \<in> set (chunks (run init_database ops)). 1 \<le> difficulty c \<and> difficulty c \<le> 5)"
proof -
  have "difficulty_ok init_database" by (simp add: difficulty_ok_def init_database_def)
  then have "difficulty_ok (run init_database ops)"
    by (rule run_invariant) (rule difficulty_ok_exec)
  then show ?thesis by (auto simp: create_chunk_def difficulty_ok_def list_all_iff)
qed

text \<open>Scenario B of the specification: difficulty 0 is refused and nothing is stored.\<close>

theorem difficulty_range_enforced_witness:
  "((0::int) < 1 \<or> 5 < (0::int))
   \<and> create_chunk init_database 100 ''Learn Pandas'' ''Learn pandas basics'' 0
       = (Inl IntegrityError, init_database)
   \<and> chunks (run init_database scenario_ops) \<noteq> []
   \<and> list_all (\<lambda>c. 1 \<le> difficulty c \<and> difficulty c \<le> 5) (chunks (run init_database scenario_ops))"
proof -
  have "sqlite_int 0" by (simp add: sqlite_int_def)
  moreover have "chunks (run init_database scenario_ops) \<noteq> []"
    using scenario_A_eq by (simp add: scenario_A_def)
  ultimately show ?thesis
    using difficulty_range_enforced
      [of 0 init_database 100 "''Learn Pandas''" "''Learn pandas basics''" scenario_ops]
    by (simp add: list_all_iff)
qed

section \<open>Self-loops and edges to missing chunks\<close>

text \<open>
  The sentence C4 of the specification says that an edge to an id that no chunk has
  blocks the chunk for ever, as a self-loop does. Both queries join the edges with the rows
  of \<^verbatim>\<open>chunks\<close>, so an edge that points to no row contributes nothing: the chunk below has
  such an edge, is returned as the next chunk, and passes the gate.
\<close>

theorem dangling_edge_counterexample:
  "chunk_pandas \<in> set (chunks scenario_dangling)
   \<and> edge_exists scenario_dangling 1 99
   \<and> get_chunk_by_id scenario_dangling 99 = Inr None
   \<and> get_next_available_chunk scenario_dangling = Some chunk_pandas
   \<and> can_complete scenario_dangling 1 = Inr Pass"
  by (simp add: scenario_dangling_eq eval_defs)

text \<open>
  C4, for self-loops. A chunk of the store with a dependency edge from its id to its id
  never becomes available: after any sequence of operations,
  \<^verbatim>\<open>get_next_available_chunk\<close> does not return a chunk of that id, and the gate does not
  pass for that id.
\<close>

theorem self_loop_never_available:
  "c \<in> set (chunks s) \<and> edge_exists s (id_chunk c) (id_chunk c) \<longrightarrow>
     (\<forall>c'. get_next_available_chunk (run s ops) = Some c' \<longrightarrow> id_chunk c' \<noteq> id_chunk c)
     \<and> can_complete (run s ops) (id_chunk c) \<noteq> Inr Pass"
proof
  assume "c \<in> set (chunks s) \<and> edge_exists s (id_chunk c) (id_chunk c)"
  then have "edge_exists (run s ops) (id_chunk c) (id_chunk c)" by (simp add: edge_exists_run)
  then show "(\<forall>c'. get_next_available_chunk (run s ops) = Some c' \<longrightarrow> id_chunk c' \<noteq> id_chunk c)
     \<and> can_complete (run s ops) (id_chunk c) \<noteq> Inr Pass"
    by (rule self_loop_blocks)
qed

text \<open>
  The chunk that depends on itself, after an attempt to complete it through the command
  and the creation of another chunk: the other chunk is the next one, and the gate stays
  closed.
\<close>

theorem self_loop_never_available_witness:
  "(chunk_pandas \<in> set (chunks scenario_self_loop)
    \<and> edge_exists scenario_self_loop (id_chunk chunk_pandas) (id_chunk chunk_pandas))
   \<and> map_option id_chunk (get_next_available_chunk
         (run scenario_self_loop [Complete 200 1, Create_chunk 201 ''x'' ''y'' 3]))
       \<noteq> Some (id_chunk chunk_pandas)
   \<and> can_complete (run scenario_self_loop [Complete 200 1, Create_chunk 201 ''x'' ''y'' 3])
        (id_chunk chunk_pandas) \<noteq> Inr Pass"
proof -
  have h: "chunk_pandas \<in> set (chunks scenario_self_loop)
    \<and> edge_exists scenario_self_loop (id_chunk chunk_pandas) (id_chunk chunk_pandas)"
    by (simp add: scenario_self_loop_eq eval_defs)
  from self_loop_never_available
    [of chunk_pandas scenario_self_loop "[Complete 200 1, Create_chunk 201 ''x'' ''y'' 3]"] h
  show ?thesis by auto
qed

section \<open>Dependency edges\<close>

text \<open>
  C5. For every pair of ids that SQLite can hold: once \<^verbatim>\<open>add_dependency\<close> has been called
  with the pair, a later call with the same pair, directly afterwards or after any further
  operations, returns \<open>False\<close> (it does not raise) and leaves the whole store, and so the
  set of edges, as it was.
\<close>

theorem duplicate_edge_rejected:
  "sqlite_int cid \<and> sqlite_int dep_id \<longrightarrow>
     add_dependency (run (snd (add_dependency s cid dep_id)) ops) cid dep_id
       = (Inr False, run (snd (add_dependency s cid dep_id)) ops)"
proof
  assume a: "sqlite_int cid \<and> sqlite_int dep_id"
  then have "edge_exists (snd (add_dependency s cid dep_id)) cid dep_id"
    by (auto simp: add_dependency_eq edge_exists_def inserted_dependency_def)
  then have "edge_exists (run (snd (add_dependency s cid dep_id)) ops) cid dep_id"
    by (rule edge_exists_run)
  with a show "add_dependency (run (snd (add_dependency s cid dep_id)) ops) cid dep_id
       = (Inr False, run (snd (add_dependency s cid dep_id)) ops)"
    by (simp add: add_dependency_eq)
qed

theorem duplicate_edge_rejected_witness:
  "(sqlite_int 2 \<and> sqlite_int 1)
   \<and> add_dependency (snd (add_dependency scenario_A 2 1)) 2 1
       = (Inr False, snd (add_dependency scenario_A 2 1))
   \<and> add_dependency (run (snd (add_dependency init_database 2 1)) [Create_chunk 100 ''x'' ''y'' 3]) 2 1
       = (Inr False, run (snd (add_dependency init_database 2 1)) [Create_chunk 100 ''x'' ''y'' 3])"
proof -
  have h: "sqlite_int 2 \<and> sqlite_int 1" by (simp add: sqlite_int_def)
  from duplicate_edge_rejected [of 2 1 init_database "[Create_chunk 100 ''x'' ''y'' 3]"]
    duplicate_edge_rejected [of 2 1 scenario_A "[]"] h
  show ?thesis by (simp add: run_Nil)
qed

text \<open>
  C8. \<^verbatim>\<open>add_dependency\<close> does not check that its arguments are ids of chunks: for every
  pair of ids that SQLite can hold and that is not yet an edge, whether or not chunks with
  these ids exist, the call appends the edge and returns \<open>True\<close>. The statement says
  nothing about the chunks of the store, and nothing else of the store changes.
\<close>

theorem add_dependency_no_existence_check:
  "sqlite_int cid \<and> sqlite_int dep_id \<and> \<not> edge_exists s cid dep_id \<longrightarrow>
     (\<exists>rowid. add_dependency s cid dep_id =
        (Inr True,
         s\<lparr>dependencies := dependencies s @
              [\<lparr>id_dependency = rowid, chunk_id = cid, depends_on_chunk_id = dep_id\<rparr>],
           dependencies_seq := rowid\<rparr>))"
  by (auto simp: add_dependency_def Let_def)

text \<open>In the empty store, where no chunk exists at all, the edge from 7 to 9 is accepted.\<close>

theorem add_dependency_no_existence_check_witness:
  "(sqlite_int 7 \<and> sqlite_int 9 \<and> \<not> edge_exists init_database 7 9)
   \<and> chunks init_database = []
   \<and> (\<exists>rowid. add_dependency init_database 7 9 =
        (Inr True,
         init_database\<lparr>dependencies := dependencies init_database @
              [\<lparr>id_dependency = rowid, chunk_id = 7, depends_on_chunk_id = 9\<rparr>],
           dependencies_seq := rowid\<rparr>))"
proof -
  have h: "sqlite_int 7 \<and> sqlite_int 9 \<and> \<not> edge_exists init_database 7 9"
    by (simp add: sqlite_int_def edge_exists_def init_database_def)
  moreover have "chunks init_database = []" by (simp add: init_database_def)
  ultimately show ?thesis
    using add_dependency_no_existence_check [of 7 9 init_database] by blast
qed

section \<open>Completion\<close>

text \<open>
  C6. Once the chunk of an id is completed, it stays completed: after any sequence of the
  exposed operations (creating chunks, completing chunks directly or through the command,
  adding dependencies, and the queries), the store still holds a chunk under that id, and
  it is completed.
\<close>

theorem completed_is_terminal:
  "get_chunk_by_id s cid = Inr (Some c) \<and> completed c \<longrightarrow>
     (\<exists>c'. get_chunk_by_id (run s ops) cid = Inr (Some c') \<and> completed c')"
proof
  assume a: "get_chunk_by_id s cid = Inr (Some c) \<and> completed c"
  then have int: "sqlite_int cid" and "completed_row s cid"
    by (auto simp: get_chunk_by_id_def completed_row_def split: if_splits)
  then have "completed_row (run s ops) cid" by (simp add: completed_row_run)
  with int show "\<exists>c'. get_chunk_by_id (run s ops) cid = Inr (Some c') \<and> completed c'"
    by (auto simp: get_chunk_by_id_def completed_row_def split: option.splits)
qed

theorem completed_is_terminal_witness:
  "(get_chunk_by_id scenario_late_edge 1
      = Inr (Some (chunk_pandas\<lparr>completed := True, completed_at := Some 200\<rparr>))
    \<and> completed (chunk_pandas\<lparr>completed := True, completed_at := Some 200\<rparr>))
   \<and> (\<exists>c'. get_chunk_by_id
              (run scenario_late_edge [Complete_chunk 300 1, Add_dependency 1 1, Complete 301 2]) 1
              = Inr (Some c') \<and> completed c')"
proof -
  have h: "get_chunk_by_id scenario_late_edge 1
      = Inr (Some (chunk_pandas\<lparr>completed := True, completed_at := Some 200\<rparr>))
    \<and> completed (chunk_pandas\<lparr>completed := True, completed_at := Some 200\<rparr>)"
    by (simp add: scenario_late_edge_eq eval_defs)
  from completed_is_terminal
    [of scenario_late_edge 1 "chunk_pandas\<lparr>completed := True, completed_at := Some 200\<rparr>"
        "[Complete_chunk 300 1, Add_dependency 1 1, Complete 301 2]"] h
  show ?thesis by blast
qed

text \<open>
  C7. In every store reached from the empty one by the exposed operations, a chunk has a
  completion time if and only if it is completed. \<^verbatim>\<open>create_chunk\<close>, when it succeeds,
  appends one row, which is not completed and has no completion time; \<^verbatim>\<open>complete_chunk\<close>,
  when it returns, has set both \<open>completed\<close> and the completion time of every row of the
  id.
\<close>

theorem completed_at_iff_completed:
  "(\<forall>c \<in> set (chunks (run init_database ops)). (completed_at c \<noteq> None) = completed c)
   \<and> (\<forall>cid s'. create_chunk s now nm descr diff = (Inr cid, s') \<longrightarrow>
        (\<exists>row. chunks s' = chunks s @ [row] \<and> id_chunk row = cid
               \<and> \<not> completed row \<and> completed_at row = None))
   \<and> (\<forall>b s'. complete_chunk s now cid = (Inr b, s') \<longrightarrow>
        (\<forall>c \<in> set (chunks s'). id_chunk c = cid \<longrightarrow> completed c \<and> completed_at c = Some now))"
proof -
  have "completed_at_ok init_database" by (simp add: completed_at_ok_def init_database_def)
  then have "completed_at_ok (run init_database ops)"
    by (rule run_invariant) (rule completed_at_ok_exec)
  then have p1: "\<forall>c \<in> set (chunks (run init_database ops)). (completed_at c \<noteq> None) = completed c"
    by (simp add: completed_at_ok_def list_all_iff)
  have p2: "\<forall>cid s'. create_chunk s now nm descr diff = (Inr cid, s') \<longrightarrow>
        (\<exists>row. chunks s' = chunks s @ [row] \<and> id_chunk row = cid
               \<and> \<not> completed row \<and> completed_at row = None)"
    by (auto simp: create_chunk_eq inserted_chunk_def split: if_splits)
  have p3: "\<forall>b s'. complete_chunk s now cid = (Inr b, s') \<longrightarrow>
        (\<forall>c \<in> set (chunks s'). id_chunk c = cid \<longrightarrow> completed c \<and> completed_at c = Some now)"
  proof (intro allI impI ballI)
    fix b s' c
    assume r: "complete_chunk s now cid = (Inr b, s')"
      and mem: "c \<in> set (chunks s')" and idc: "id_chunk c = cid"
    from r have "chunks s' = map (mark now cid) (chunks s)"
      by (cases "sqlite_int cid") (auto simp: complete_chunk_eq updated_chunks_def)
    with mem obtain c0 where c0: "c = mark now cid c0" by auto
    with idc have "id_chunk c0 = cid" by (simp add: id_chunk_mark)
    with c0 show "completed c \<and> completed_at c = Some now" by (simp add: mark_def)
  qed
  from p1 p2 p3 show ?thesis by blast
qed

theorem completed_at_iff_completed_witness:
  "(create_chunk init_database 100 ''Learn Pandas'' ''Learn pandas basics'' 2
      = (Inr 1, run init_database [Create_chunk 100 ''Learn Pandas'' ''Learn pandas basics'' 2])
    \<and> (\<exists>row. chunks (run init_database [Create_chunk 100 ''Learn Pandas'' ''Learn pandas basics'' 2])
                = chunks init_database @ [row]
             \<and> id_chunk row = 1 \<and> \<not> completed row \<and> completed_at row = None))
   \<and> (complete_chunk scenario_A 200 1 = (Inr True, run scenario_A [Complete_chunk 200 1])
      \<and> list_ex (\<lambda>c. id_chunk c = 1) (chunks (run scenario_A [Complete_chunk 200 1]))
      \<and> list_all (\<lambda>c. id_chunk c = 1 \<longrightarrow> completed c \<and> completed_at c = Some 200)
           (chunks (run scenario_A [Complete_chunk 200 1])))
   \<and> (list_ex completed (chunks (run init_database (scenario_ops @ [Complete_chunk 200 1])))
      \<and> list_ex (\<lambda>c. \<not> completed c) (chunks (run init_database (scenario_ops @ [Complete_chunk 200 1])))
      \<and> list_all (\<lambda>c. (completed_at c \<noteq> None) = completed c)
           (chunks (run init_database (scenario_ops @ [Complete_chunk 200 1]))))"
proof -
  have a: "create_chunk init_database 100 ''Learn Pandas'' ''Learn pandas basics'' 2
      = (Inr 1, run init_database [Create_chunk 100 ''Learn Pandas'' ''Learn pandas basics'' 2])"
    by (simp add: eval_defs)
  have b: "complete_chunk scenario_A 200 1 = (Inr True, run scenario_A [Complete_chunk 200 1])"
    by (simp add: scenario_A_eq eval_defs)
  have c: "list_ex (\<lambda>c. id_chunk c = 1) (chunks (run scenario_A [Complete_chunk 200 1]))"
    by (simp add: scenario_A_eq eval_defs)
  have d: "list_ex completed (chunks (run init_database (scenario_ops @ [Complete_chunk 200 1])))"
    and e: "list_ex (\<lambda>c. \<not> completed c)
              (chunks (run init_database (scenario_ops @ [Complete_chunk 200 1])))"
    by (simp_all add: scenario_ops_def eval_defs)
  from completed_at_iff_completed
    [of "scenario_ops @ [Complete_chunk 200 1]" init_database 100 "''Learn Pandas''"
        "''Learn pandas basics''" 2 1]
    completed_at_iff_completed
    [of "scenario_ops @ [Complete_chunk 200 1]" scenario_A 200 "''Learn Pandas''"
        "''Learn pandas basics''" 2 1]
     a b c d e
  show ?thesis unfolding list_all_iff by blast
qed

text \<open>
  C10. For every id whose chunk exists and is already completed, \<^verbatim>\<open>complete_chunk\<close>
  returns \<open>True\<close> again and the chunk then carries the time of this call as its completion
  time, whatever the earlier time was. For every id that SQLite can hold, the value
  returned says whether a chunk of that id exists, and nothing else.
\<close>

theorem complete_chunk_overwrites:
  "(get_chunk_by_id s cid = Inr (Some c) \<and> completed c \<longrightarrow>
      (\<exists>s'. complete_chunk s now cid = (Inr True, s')
         \<and> get_chunk_by_id s' cid = Inr (Some (c\<lparr>completed_at := Some now\<rparr>))))
   \<and> (sqlite_int cid \<longrightarrow>
        fst (complete_chunk s now cid) = Inr (get_chunk_by_id s cid \<noteq> Inr None))"
proof -
  have p1: "get_chunk_by_id s cid = Inr (Some c) \<and> completed c \<longrightarrow>
      (\<exists>s'. complete_chunk s now cid = (Inr True, s')
         \<and> get_chunk_by_id s' cid = Inr (Some (c\<lparr>completed_at := Some now\<rparr>)))"
  proof
    assume a: "get_chunk_by_id s cid = Inr (Some c) \<and> completed c"
    then have int: "sqlite_int cid" and f: "find (\<lambda>c. id_chunk c = cid) (chunks s) = Some c"
      by (auto simp: get_chunk_by_id_def split: if_splits)
    from f have idc: "id_chunk c = cid" and mem: "c \<in> set (chunks s)"
      by (auto simp: find_Some_iff)
    from mem idc have ex: "list_ex (\<lambda>c. id_chunk c = cid) (chunks s)"
      by (auto simp: list_ex_iff)
    have "mark now cid c = c\<lparr>completed_at := Some now\<rparr>" using a idc by (simp add: mark_def)
    with int f ex show "\<exists>s'. complete_chunk s now cid = (Inr True, s')
         \<and> get_chunk_by_id s' cid = Inr (Some (c\<lparr>completed_at := Some now\<rparr>))"
      by (simp add: complete_chunk_eq updated_chunks_def get_chunk_by_id_def find_map_mark)
  qed
  have p2: "sqlite_int cid \<longrightarrow>
        fst (complete_chunk s now cid) = Inr (get_chunk_by_id s cid \<noteq> Inr None)"
    by (auto simp: complete_chunk_eq get_chunk_by_id_def list_ex_iff find_None_iff)
  from p1 p2 show ?thesis by blast
qed

text \<open>
  The first chunk was completed at time 200; completing it again at time 300 returns
  \<open>True\<close> and leaves 300 as its completion time. For the id 7, which no chunk has, the
  result is \<open>False\<close>.
\<close>

theorem complete_chunk_overwrites_witness:
  "(get_chunk_by_id scenario_late_edge 1
      = Inr (Some (chunk_pandas\<lparr>completed := True, completed_at := Some 200\<rparr>))
    \<and> completed (chunk_pandas\<lparr>completed := True, completed_at := Some 200\<rparr>))
   \<and> (\<exists>s'. complete_chunk scenario_late_edge 300 1 = (Inr True, s')
         \<and> get_chunk_by_id s' 1
             = Inr (Some (chunk_pandas\<lparr>completed := True, completed_at := Some 300\<rparr>)))
   \<and> sqlite_int 7
   \<and> fst (complete_chunk scenario_late_edge 300 7) = Inr False"
proof -
  have h: "get_chunk_by_id scenario_late_edge 1
      = Inr (Some (chunk_pandas\<lparr>completed := True, completed_at := Some 200\<rparr>))
    \<and> completed (chunk_pandas\<lparr>completed := True, completed_at := Some 200\<rparr>)"
    by (simp add: scenario_late_edge_eq eval_defs)
  have i: "sqlite_int 7" by (simp add: sqlite_int_def)
  have n: "get_chunk_by_id scenario_late_edge 7 = Inr None"
    by (simp add: scenario_late_edge_eq eval_defs)
  from complete_chunk_overwrites
    [of scenario_late_edge 1 "chunk_pandas\<lparr>completed := True, completed_at := Some 200\<rparr>" 300]
    complete_chunk_overwrites
    [of scenario_late_edge 7 "chunk_pandas" 300]
    h i n
  show ?thesis by simp
qed

section \<open>The name of a chunk\<close>

text \<open>
  The sentence C9 of the specification says that \<^verbatim>\<open>create_chunk\<close> refuses an empty name.
  Neither the function nor the table checks the name for emptiness (\<^verbatim>\<open>NOT NULL\<close> admits
  the empty string): with an empty name and the difficulty 3 the chunk is stored and its id
  returned.
\<close>

theorem empty_name_counterexample:
  "create_chunk init_database 100 [] ''Learn pandas basics'' 3 =
     (Inr 1,
      \<lparr>chunks = [\<lparr>id_chunk = 1, name = [], description = ''Learn pandas basics'',
                  difficulty = 3, completed = False, created_at = Some 100,
                  completed_at = None\<rparr>],
       chunks_seq = 1, dependencies = [], dependencies_seq = 0\<rparr>)"
  by (simp add: eval_defs)

text \<open>
  C9, as the code has it. For every input with an empty name and a difficulty in 1..5,
  \<^verbatim>\<open>create_chunk\<close> succeeds: it returns an id, and the store then holds a chunk of that id
  whose name is empty.
\<close>

theorem empty_name_accepted:
  "sqlite_int diff \<and> 1 \<le> diff \<and> diff \<le> 5 \<longrightarrow>
     (\<exists>cid s'. create_chunk s now [] descr diff = (Inr cid, s')
        \<and> (\<exists>row \<in> set (chunks s'). id_chunk row = cid \<and> name row = []))"
  by (auto simp: create_chunk_def Let_def)

theorem empty_name_accepted_witness:
  "(sqlite_int 3 \<and> (1::int) \<le> 3 \<and> (3::int) \<le> 5)
   \<and> (\<exists>cid s'. create_chunk scenario_A 100 [] ''Learn pandas basics'' 3 = (Inr cid, s')
        \<and> (\<exists>row \<in> set (chunks s'). id_chunk row = cid \<and> name row = []))"
proof -
  have h: "sqlite_int 3 \<and> (1::int) \<le> 3 \<and> (3::int) \<le> 5" by (simp add: sqlite_int_def)
  from empty_name_accepted [of 3 scenario_A 100 "''Learn pandas basics''"] h
  show ?thesis by blast
qed

end
